theory Spec2Isabelle
  imports Main "HOL-Library.Sublist"
begin

section \<open>The host: filesystem, console and exceptions\<close>

text \<open>
  \<^verbatim>\<open>cleanup.py\<close> is a module body of three parts: a \<^verbatim>\<open>for\<close> loop over the
  constant list \<^verbatim>\<open>test_files\<close>, a guarded \<^verbatim>\<open>shutil.rmtree\<close> of the constant
  \<^verbatim>\<open>test_project_dir\<close>, and a final \<^verbatim>\<open>print\<close>. It talks to the host through
  \<^verbatim>\<open>os.path.exists\<close>, \<^verbatim>\<open>os.remove\<close>, \<^verbatim>\<open>shutil.rmtree\<close> and \<^verbatim>\<open>print\<close>.
  These four are not code of the script; they are modelled here from their documented
  behaviour on a Linux host.

  A filesystem is a finite listing of the entries that are on disk. An entry has
  \<^item> an absolute path;
  \<^item> a kind: regular file, directory or symbolic link;
  \<^item> the error number that \<^verbatim>\<open>os.stat\<close> of its path fails with, if any: \<^verbatim>\<open>ENOENT\<close>
    for a symbolic link whose target is missing, \<^verbatim>\<open>EACCES\<close> for an entry under a
    directory without search permission;
  \<^item> a lock: the error number that any attempt to delete the entry fails with, if any
    (permission denied, busy, read-only filesystem, I/O error, ...).
  The listing is in the order in which a recursive delete visits the entries (children
  before their directory).
\<close>

datatype kind = File | Dir | Symlink

datatype errno = EPERM | ENOENT | EIO | EACCES | EBUSY | ENOTDIR | EISDIR | EROFS | ENOTEMPTY

datatype entry =
  Entry (e_path: string) (e_kind: kind) (e_stat: "errno option") (e_lock: "errno option")

type_synonym filesystem = "entry list"

text \<open>The only exceptions the host calls raise are \<^verbatim>\<open>OSError\<close>s: those of a failed
  system call carry an error number and the file name the call was given; the one
  \<^verbatim>\<open>shutil.rmtree\<close> raises itself on a symbolic link carries only its message.\<close>

datatype exn = OSError errno string | SymlinkError

fun errno_digits :: "errno \<Rightarrow> string" where
  "errno_digits EPERM = ''1''"
| "errno_digits ENOENT = ''2''"
| "errno_digits EIO = ''5''"
| "errno_digits EACCES = ''13''"
| "errno_digits EBUSY = ''16''"
| "errno_digits ENOTDIR = ''20''"
| "errno_digits EISDIR = ''21''"
| "errno_digits EROFS = ''30''"
| "errno_digits ENOTEMPTY = ''39''"

fun strerror :: "errno \<Rightarrow> string" where
  "strerror EPERM = ''Operation not permitted''"
| "strerror ENOENT = ''No such file or directory''"
| "strerror EIO = ''Input/output error''"
| "strerror EACCES = ''Permission denied''"
| "strerror EBUSY = ''Device or resource busy''"
| "strerror ENOTDIR = ''Not a directory''"
| "strerror EISDIR = ''Is a directory''"
| "strerror EROFS = ''Read-only file system''"
| "strerror ENOTEMPTY = ''Directory not empty''"

text \<open>\<^verbatim>\<open>str(e)\<close> of an \<^verbatim>\<open>OSError\<close> with a file name, as the f-strings
  \<^verbatim>\<open>{e}\<close> print it: \<^verbatim>\<open>[Errno 13] Permission denied: '/p'\<close>. The file name is shown
  by \<^verbatim>\<open>repr\<close>, which for a path without quotes, backslashes or control characters is
  the path between single quotes.\<close>

definition str_exn :: "exn \<Rightarrow> string" where
  "str_exn x =
     (case x of
        OSError c p \<Rightarrow>
          ''[Errno '' @ errno_digits c @ ''] '' @ strerror c @ '': '' @ [CHR 0x27] @ p @ [CHR 0x27]
      | SymlinkError \<Rightarrow> ''Cannot call rmtree on a symbolic link'')"

text \<open>The state of a run: the filesystem and the lines printed so far (one per call of
  \<^verbatim>\<open>print\<close>). A statement maps a state to the exception it raised, if any, and the state
  it left behind.\<close>

record world =
  files :: filesystem
  stdout :: "string list"

type_synonym stmt = "world \<Rightarrow> exn option \<times> world"

definition lookup :: "filesystem \<Rightarrow> string \<Rightarrow> entry option" where
  "lookup f p = find (\<lambda>e. e_path e = p) f"

text \<open>A path is on disk when the listing has an entry for it (\<^verbatim>\<open>os.path.lexists\<close>).
  \<^verbatim>\<open>os.path.exists(p)\<close> calls \<^verbatim>\<open>os.stat(p)\<close> and answers \<^verbatim>\<open>False\<close> on every
  \<^verbatim>\<open>OSError\<close>: for a path that is not on disk, and also for one that is on disk but
  whose \<^verbatim>\<open>os.stat\<close> fails.\<close>

definition on_disk :: "filesystem \<Rightarrow> string \<Rightarrow> bool" where
  "on_disk f p = (lookup f p \<noteq> None)"

definition os_path_exists :: "filesystem \<Rightarrow> string \<Rightarrow> bool" where
  "os_path_exists f p = (case lookup f p of None \<Rightarrow> False | Some e \<Rightarrow> e_stat e = None)"

definition unlink :: "string \<Rightarrow> filesystem \<Rightarrow> filesystem" where
  "unlink p f = filter (\<lambda>e. e_path e \<noteq> p) f"

text \<open>\<^verbatim>\<open>os.remove(p)\<close>: fails on a missing path, on a locked entry and on a directory;
  otherwise the entry is gone (a symbolic link is removed itself, whatever its target).
  A failed call leaves the filesystem as it was.\<close>

definition os_remove :: "string \<Rightarrow> stmt" where
  "os_remove p w =
     (case lookup (files w) p of
        None \<Rightarrow> (Some (OSError ENOENT p), w)
      | Some e \<Rightarrow>
          (case e_lock e of
             Some c \<Rightarrow> (Some (OSError c p), w)
           | None \<Rightarrow>
               (case e_kind e of
                  Dir \<Rightarrow> (Some (OSError EISDIR p), w)
                | File \<Rightarrow> (None, w\<lparr>files := unlink p (files w)\<rparr>)
                | Symlink \<Rightarrow> (None, w\<lparr>files := unlink p (files w)\<rparr>))))"

text \<open>The subtree of a directory \<open>d\<close>: \<open>d\<close> itself and every path below it.\<close>

definition inside :: "string \<Rightarrow> string \<Rightarrow> bool" where
  "inside d p = (p = d \<or> prefix (d @ ''/'') p)"

text \<open>\<^verbatim>\<open>shutil.rmtree(d)\<close> with its default arguments deletes the entries of the
  subtree one after the other and re-raises the first error: what it deleted before
  the error stays deleted. It refuses a path it cannot open, a regular file and a
  symbolic link.\<close>

fun rmtree_walk :: "string \<Rightarrow> filesystem \<Rightarrow> exn option \<times> filesystem" where
  "rmtree_walk d [] = (None, [])"
| "rmtree_walk d (e # es) =
     (if inside d (e_path e)
      then (case e_lock e of
              Some c \<Rightarrow> (Some (OSError c (e_path e)), e # es)
            | None \<Rightarrow> rmtree_walk d es)
      else (case rmtree_walk d es of (r, es') \<Rightarrow> (r, e # es')))"

definition shutil_rmtree :: "string \<Rightarrow> stmt" where
  "shutil_rmtree d w =
     (case lookup (files w) d of
        None \<Rightarrow> (Some (OSError ENOENT d), w)
      | Some e \<Rightarrow>
          (case e_stat e of
             Some c \<Rightarrow> (Some (OSError c d), w)
           | None \<Rightarrow>
               (case e_kind e of
                  File \<Rightarrow> (Some (OSError ENOTDIR d), w)
                | Symlink \<Rightarrow> (Some SymlinkError, w)
                | Dir \<Rightarrow> (case rmtree_walk d (files w) of (r, f') \<Rightarrow> (r, w\<lparr>files := f'\<rparr>)))))"

definition print :: "string \<Rightarrow> stmt" where
  "print s w = (None, w\<lparr>stdout := stdout w @ [s]\<rparr>)"

section \<open>Python's control flow\<close>

text \<open>Sequencing stops at a raised exception; \<^verbatim>\<open>try: body except Exception as e: handler\<close>
  runs the handler, in the state the body left, on every exception of the body (every
  \<^verbatim>\<open>OSError\<close> is an \<^verbatim>\<open>Exception\<close>); a \<^verbatim>\<open>for\<close> loop runs its body on each element in
  turn and stops at the first exception that escapes the body.\<close>

definition seq :: "stmt \<Rightarrow> stmt \<Rightarrow> stmt" where
  "seq a b w = (case a w of (None, w') \<Rightarrow> b w' | (Some x, w') \<Rightarrow> (Some x, w'))"

definition try_except :: "stmt \<Rightarrow> (exn \<Rightarrow> stmt) \<Rightarrow> stmt" where
  "try_except body handler w =
     (case body w of (None, w') \<Rightarrow> (None, w') | (Some x, w') \<Rightarrow> handler x w')"

fun for_each :: "'a list \<Rightarrow> ('a \<Rightarrow> stmt) \<Rightarrow> stmt" where
  "for_each [] body w = (None, w)"
| "for_each (x # xs) body w =
     (case body x w of (None, w') \<Rightarrow> for_each xs body w' | (Some ex, w') \<Rightarrow> (Some ex, w'))"

section \<open>The script\<close>

definition test_files :: "string list" where
  "test_files =
     [''/data/projects/zion/compile_test.zig'',
      ''/data/projects/zion/test_search.zig'',
      ''/data/projects/zion/test_simple.zig'',
      ''/data/projects/zion/test_build.sh'',
      ''/data/projects/zion/cleanup.py'']"

definition test_project_dir :: string where
  "test_project_dir = ''/data/projects/zion/test-project''"

text \<open>The body of the \<^verbatim>\<open>for\<close> loop (lines 14 to 21).\<close>

definition remove_file :: "string \<Rightarrow> stmt" where
  "remove_file file =
     try_except
       (\<lambda>w. if os_path_exists (files w) file
            then seq (os_remove file) (print (''Removed '' @ file)) w
            else print (''File not found: '' @ file) w)
       (\<lambda>e. print (''Error removing '' @ file @ '': '' @ str_exn e))"

text \<open>The directory clean-up (lines 25 to 30): the existence check is outside the
  \<^verbatim>\<open>try\<close>.\<close>

definition remove_dir :: "string \<Rightarrow> stmt" where
  "remove_dir d w =
     (if os_path_exists (files w) d
      then try_except
             (seq (shutil_rmtree d) (print (''Removed directory '' @ d)))
             (\<lambda>e. print (''Error removing directory '' @ d @ '': '' @ str_exn e)) w
      else (None, w))"

definition main :: stmt where
  "main = seq (for_each test_files remove_file)
            (seq (remove_dir test_project_dir) (print ''Cleanup complete''))"

text \<open>A run starts with nothing printed. The interpreter exits with status 0 when the
  module body ends normally and with status 1 when an exception escapes it.\<close>

definition run :: "filesystem \<Rightarrow> exn option \<times> world" where
  "run f = main \<lparr>files = f, stdout = []\<rparr>"

definition run_out :: "filesystem \<Rightarrow> string list" where
  "run_out f = stdout (snd (run f))"

definition run_files :: "filesystem \<Rightarrow> filesystem" where
  "run_files f = files (snd (run f))"

definition exit_status :: "filesystem \<Rightarrow> nat" where
  "exit_status f = (case fst (run f) of None \<Rightarrow> 0 | Some x \<Rightarrow> 1)"

section \<open>Outcomes, as the specification words them\<close>

text \<open>The error that deleting the file \<open>p\<close> raises in the filesystem \<open>f\<close>, if any, and
  the error that deleting the directory tree \<open>d\<close> raises, if any.\<close>

definition remove_error :: "filesystem \<Rightarrow> string \<Rightarrow> exn option" where
  "remove_error f p = fst (os_remove p \<lparr>files = f, stdout = []\<rparr>)"

definition rmtree_error :: "filesystem \<Rightarrow> string \<Rightarrow> exn option" where
  "rmtree_error f d = fst (shutil_rmtree d \<lparr>files = f, stdout = []\<rparr>)"

text \<open>The outcome line of a file target, following section 4.1 of the specification:
  not found when the path does not exist, removed when the deletion succeeds, the error
  line when it fails.\<close>

definition file_outcome :: "filesystem \<Rightarrow> string \<Rightarrow> string" where
  "file_outcome f p =
     (if os_path_exists f p
      then (case remove_error f p of
              None \<Rightarrow> ''Removed '' @ p
            | Some x \<Rightarrow> ''Error removing '' @ p @ '': '' @ str_exn x)
      else ''File not found: '' @ p)"

text \<open>The outcome lines of the directory target: none when it does not exist.\<close>

definition dir_outcome :: "filesystem \<Rightarrow> string \<Rightarrow> string list" where
  "dir_outcome f d =
     (if os_path_exists f d
      then (case rmtree_error f d of
              None \<Rightarrow> [''Removed directory '' @ d]
            | Some x \<Rightarrow> [''Error removing directory '' @ d @ '': '' @ str_exn x])
      else [])"

text \<open>The filesystem after one iteration of the loop, after the whole loop, and after the
  directory clean-up.\<close>

definition file_step :: "string \<Rightarrow> filesystem \<Rightarrow> filesystem" where
  "file_step p f = (if os_path_exists f p \<and> remove_error f p = None then unlink p f else f)"

definition after_files :: "string list \<Rightarrow> filesystem \<Rightarrow> filesystem" where
  "after_files ps f = fold file_step ps f"

definition dir_step :: "string \<Rightarrow> filesystem \<Rightarrow> filesystem" where
  "dir_step d f =
     (if os_path_exists f d then files (snd (shutil_rmtree d \<lparr>files = f, stdout = []\<rparr>)) else f)"

text \<open>The filesystem at the moment the script checks the directory: the one the
  \<^verbatim>\<open>for\<close> loop leaves.\<close>

definition dir_check_files :: "filesystem \<Rightarrow> filesystem" where
  "dir_check_files f = files (snd (for_each test_files remove_file \<lparr>files = f, stdout = []\<rparr>))"

text \<open>The outcome lines that are about the file target \<open>p\<close>.\<close>

definition outcome_of :: "string \<Rightarrow> string \<Rightarrow> bool" where
  "outcome_of p l =
     (l = ''Removed '' @ p \<or> l = ''File not found: '' @ p
      \<or> (\<exists>x. l = ''Error removing '' @ p @ '': '' @ str_exn x))"

text \<open>The six message formats of section 6 of the specification, in its order, with
  \<^verbatim>\<open>{path}\<close> a target of the script and \<^verbatim>\<open>{error}\<close> the text of an exception: which of
  them the line \<open>l\<close> is an instance of.\<close>

definition message_formats :: "string \<Rightarrow> bool list" where
  "message_formats l =
     [\<exists>p\<in>set test_files. l = ''Removed '' @ p,
      \<exists>p\<in>set test_files. l = ''File not found: '' @ p,
      \<exists>p\<in>set test_files. \<exists>x. l = ''Error removing '' @ p @ '': '' @ str_exn x,
      l = ''Removed directory '' @ test_project_dir,
      \<exists>x. l = ''Error removing directory '' @ test_project_dir @ '': '' @ str_exn x,
      l = ''Cleanup complete'']"

text \<open>The targets of the script: the five file paths and the subtree of the directory.\<close>

definition is_target :: "string \<Rightarrow> bool" where
  "is_target p = (p \<in> set test_files \<or> inside test_project_dir p)"

section \<open>Example filesystems\<close>

text \<open>A project directory in which one file target is deletable, one is a directory,
  one is write-protected and two are missing, and the nested project exists and holds a
  file that is busy.\<close>

definition zion_mixed :: filesystem where
  "zion_mixed =
     [Entry ''/data/projects/zion/compile_test.zig'' File None None,
      Entry ''/data/projects/zion/test_build.sh'' Dir None None,
      Entry ''/data/projects/zion/test_simple.zig'' File None (Some EACCES),
      Entry ''/data/projects/zion/build.zig'' File None None,
      Entry ''/data/projects/zion/test-project/src/main.zig'' File None (Some EBUSY),
      Entry ''/data/projects/zion/test-project/src'' Dir None None,
      Entry ''/data/projects/zion/test-project'' Dir None None,
      Entry ''/data/projects/zion'' Dir None None,
      Entry ''/data/projects'' Dir None None,
      Entry ''/data'' Dir None None]"


text \<open>A project directory in which a symbolic link whose target is missing sits at the
  path of a file target.\<close>

definition zion_dangling :: filesystem where
  "zion_dangling =
     [Entry ''/data/projects/zion/test_build.sh'' Symlink (Some ENOENT) None,
      Entry ''/data/projects/zion'' Dir None None,
      Entry ''/data/projects'' Dir None None,
      Entry ''/data'' Dir None None]"

definition zion_deletable :: filesystem where
  "zion_deletable =
     [Entry ''/data/projects/zion/compile_test.zig'' File None None,
      Entry ''/data/projects/zion/cleanup.py'' File None None,
      Entry ''/data/projects/zion/build.zig'' File None None,
      Entry ''/data/projects/zion/test-project/build.zig'' File None None,
      Entry ''/data/projects/zion/test-project'' Dir None None,
      Entry ''/data/projects/zion'' Dir None None,
      Entry ''/data/projects'' Dir None None,
      Entry ''/data'' Dir None None]"

section \<open>One iteration, the loop, the directory\<close>

lemma os_remove_eq:
  "os_remove p w =
     (remove_error (files w) p,
      w\<lparr>files := (if remove_error (files w) p = None then unlink p (files w) else files w)\<rparr>)"
  by (simp add: os_remove_def remove_error_def split: option.splits kind.splits)

lemma remove_file_eq:
  "remove_file p w =
     (None, w\<lparr>files := file_step p (files w), stdout := stdout w @ [file_outcome (files w) p]\<rparr>)"
  by (cases "os_path_exists (files w) p"; cases "remove_error (files w) p")
     (simp_all add: remove_file_def try_except_def seq_def print_def os_remove_eq
        file_outcome_def file_step_def)

lemma os_path_exists_lookup:
  "lookup f p = lookup g p \<Longrightarrow> os_path_exists f p = os_path_exists g p"
  by (simp add: os_path_exists_def)

lemma lookup_unlink: "lookup (unlink p f) q = (if q = p then None else lookup f q)"
  by (induction f) (auto simp add: lookup_def unlink_def)

lemma remove_error_lookup: "lookup f p = lookup g p \<Longrightarrow> remove_error f p = remove_error g p"
  by (simp add: remove_error_def os_remove_def split: option.splits kind.splits)

lemma lookup_file_step: "q \<noteq> p \<Longrightarrow> lookup (file_step p f) q = lookup f q"
  by (simp add: file_step_def lookup_unlink)

lemma file_outcome_lookup: "lookup f p = lookup g p \<Longrightarrow> file_outcome f p = file_outcome g p"
  by (simp add: file_outcome_def os_path_exists_lookup[of f p g] remove_error_lookup[of f p g])

text \<open>The targets are pairwise different, so an iteration cannot change what a later
  one finds: every outcome line is the one of the initial filesystem.\<close>

lemma for_each_remove_file:
  "distinct ps \<Longrightarrow>
   for_each ps remove_file w =
     (None, w\<lparr>files := after_files ps (files w),
              stdout := stdout w @ map (file_outcome (files w)) ps\<rparr>)"
proof (induction ps arbitrary: w)
  case Nil
  show ?case by (simp add: after_files_def)
next
  case (Cons p ps)
  have same: "map (file_outcome (file_step p (files w))) ps = map (file_outcome (files w)) ps"
  proof (rule map_cong[OF refl])
    fix q assume "q \<in> set ps"
    with Cons.prems have "q \<noteq> p" by auto
    then show "file_outcome (file_step p (files w)) q = file_outcome (files w) q"
      by (intro file_outcome_lookup lookup_file_step)
  qed
  from Cons.prems have "distinct ps" by simp
  from Cons.IH[OF this] same show ?case
    by (simp add: remove_file_eq after_files_def)
qed

lemma lookup_after_files_other: "q \<notin> set ps \<Longrightarrow> lookup (after_files ps f) q = lookup f q"
  unfolding after_files_def
  by (induction ps arbitrary: f) (auto simp add: lookup_file_step)

lemma rmtree_walk_unlink:
  "\<not> inside d p \<Longrightarrow>
   rmtree_walk d (unlink p f) = (fst (rmtree_walk d f), unlink p (snd (rmtree_walk d f)))"
  by (induction f) (auto simp add: unlink_def split: option.splits prod.splits)

lemma rmtree_walk_file_step:
  "\<not> inside d p \<Longrightarrow> fst (rmtree_walk d (file_step p f)) = fst (rmtree_walk d f)"
  by (simp add: file_step_def rmtree_walk_unlink)

lemma rmtree_walk_after_files:
  "\<forall>p\<in>set ps. \<not> inside d p \<Longrightarrow> fst (rmtree_walk d (after_files ps f)) = fst (rmtree_walk d f)"
  unfolding after_files_def
  by (induction ps arbitrary: f) (simp_all add: rmtree_walk_file_step)

lemma shutil_rmtree_eq:
  "shutil_rmtree d w =
     (rmtree_error (files w) d,
      w\<lparr>files := files (snd (shutil_rmtree d \<lparr>files = files w, stdout = []\<rparr>))\<rparr>)"
  by (simp add: shutil_rmtree_def rmtree_error_def split: option.splits kind.splits prod.splits)

lemma remove_dir_eq:
  "remove_dir d w =
     (None, w\<lparr>files := dir_step d (files w), stdout := stdout w @ dir_outcome (files w) d\<rparr>)"
  by (cases "rmtree_error (files w) d")
     (simp_all add: remove_dir_def try_except_def seq_def print_def shutil_rmtree_eq[of d w]
        dir_outcome_def dir_step_def)

lemma distinct_test_files: "distinct test_files"
  by (simp add: test_files_def)

lemma test_files_outside: "\<forall>p\<in>set test_files. \<not> inside test_project_dir p"
  by (simp add: test_files_def test_project_dir_def inside_def)

lemma test_project_dir_notin: "test_project_dir \<notin> set test_files"
  by (simp add: test_files_def test_project_dir_def)

lemma rmtree_error_cong:
  "lookup f d = lookup g d \<Longrightarrow> fst (rmtree_walk d f) = fst (rmtree_walk d g) \<Longrightarrow>
   rmtree_error f d = rmtree_error g d"
  by (auto simp add: rmtree_error_def shutil_rmtree_def
      split: option.splits kind.splits prod.splits)

lemma rmtree_error_after_files:
  "rmtree_error (after_files test_files f) test_project_dir = rmtree_error f test_project_dir"
  by (rule rmtree_error_cong[OF lookup_after_files_other[OF test_project_dir_notin]
        rmtree_walk_after_files[OF test_files_outside]])

lemma dir_outcome_after_files:
  "dir_outcome (after_files test_files f) test_project_dir = dir_outcome f test_project_dir"
  by (simp add: dir_outcome_def os_path_exists_def rmtree_error_after_files
      lookup_after_files_other[OF test_project_dir_notin])

section \<open>The whole run\<close>

lemma main_eq:
  "main w =
     (None, w\<lparr>files := dir_step test_project_dir (after_files test_files (files w)),
              stdout := stdout w @ map (file_outcome (files w)) test_files
                        @ dir_outcome (files w) test_project_dir @ [''Cleanup complete'']\<rparr>)"
  by (simp add: main_def seq_def for_each_remove_file[OF distinct_test_files] remove_dir_eq
      print_def dir_outcome_after_files)

lemma run_eq:
  "run f =
     (None, \<lparr>files = dir_step test_project_dir (after_files test_files f),
             stdout = map (file_outcome f) test_files @ dir_outcome f test_project_dir
                      @ [''Cleanup complete'']\<rparr>)"
  by (simp add: run_def main_eq)

lemma run_out_eq:
  "run_out f =
     map (file_outcome f) test_files @ dir_outcome f test_project_dir @ [''Cleanup complete'']"
  by (simp add: run_out_def run_eq)

lemma run_files_eq: "run_files f = dir_step test_project_dir (after_files test_files f)"
  by (simp add: run_files_def run_eq)

lemma dir_check_files_eq: "dir_check_files f = after_files test_files f"
  by (simp add: dir_check_files_def for_each_remove_file[OF distinct_test_files])

lemma dir_check_exists:
  "os_path_exists (dir_check_files f) test_project_dir = os_path_exists f test_project_dir"
  by (simp add: dir_check_files_eq os_path_exists_def
      lookup_after_files_other[OF test_project_dir_notin])

lemma exists_after_files_dir:
  "os_path_exists (after_files test_files f) test_project_dir = os_path_exists f test_project_dir"
  using dir_check_exists[of f] by (simp add: dir_check_files_eq)

lemma length_dir_outcome: "length (dir_outcome f d) = (if os_path_exists f d then 1 else 0)"
  by (simp add: dir_outcome_def split: option.splits)

lemma file_outcome_not_complete: "file_outcome f p \<noteq> ''Cleanup complete''"
  by (simp add: file_outcome_def split: option.splits)

lemma dir_outcome_not_complete: "''Cleanup complete'' \<notin> set (dir_outcome f d)"
  by (simp add: dir_outcome_def split: option.splits)

lemma count_list_0: "x \<notin> set xs \<Longrightarrow> count_list xs x = 0"
  by (induction xs) auto

section \<open>What a run leaves on the filesystem\<close>

lemma filter_unlink:
  "\<forall>e. Q e \<longrightarrow> e_path e \<noteq> p \<Longrightarrow> filter Q (unlink p f) = filter Q f"
  by (induction f) (auto simp add: unlink_def)

lemma filter_file_step:
  "\<forall>e. Q e \<longrightarrow> e_path e \<noteq> p \<Longrightarrow> filter Q (file_step p f) = filter Q f"
  by (simp add: file_step_def filter_unlink)

lemma filter_after_files:
  "\<forall>e. Q e \<longrightarrow> e_path e \<notin> set ps \<Longrightarrow> filter Q (after_files ps f) = filter Q f"
  unfolding after_files_def
  by (induction ps arbitrary: f) (auto simp add: filter_file_step)

lemma filter_rmtree_walk:
  "\<forall>e. Q e \<longrightarrow> \<not> inside d (e_path e) \<Longrightarrow> filter Q (snd (rmtree_walk d f)) = filter Q f"
  by (induction f) (auto split: option.splits prod.splits)

lemma files_shutil_rmtree:
  "files (snd (shutil_rmtree d \<lparr>files = f, stdout = out\<rparr>)) = f
   \<or> files (snd (shutil_rmtree d \<lparr>files = f, stdout = out\<rparr>)) = snd (rmtree_walk d f)"
  by (simp add: shutil_rmtree_def split: option.splits kind.splits prod.splits)

lemma dir_step_cases: "dir_step d f = f \<or> dir_step d f = snd (rmtree_walk d f)"
  using files_shutil_rmtree[of d f "[]"] by (auto simp add: dir_step_def)

lemma filter_dir_step:
  "\<forall>e. Q e \<longrightarrow> \<not> inside d (e_path e) \<Longrightarrow> filter Q (dir_step d f) = filter Q f"
  using dir_step_cases[of d f] by (auto simp add: filter_rmtree_walk)

lemma subseq_rmtree_walk: "subseq (snd (rmtree_walk d f)) f"
  by (induction f) (auto split: option.splits prod.splits)

lemma subseq_dir_step: "subseq (dir_step d f) f"
  using dir_step_cases[of d f] by (auto simp add: subseq_rmtree_walk)

lemma subseq_file_step: "subseq (file_step p f) f"
  by (simp add: file_step_def unlink_def)

lemma subseq_after_files: "subseq (after_files ps f) f"
  unfolding after_files_def
proof (induction ps arbitrary: f)
  case Nil
  show ?case by simp
next
  case (Cons p ps)
  have "subseq (fold file_step ps (file_step p f)) (file_step p f)" by (rule Cons.IH)
  then show ?case using subseq_file_step[of p f] by (auto intro: subseq_order.trans)
qed

lemma subseq_run_files: "subseq (run_files f) f"
  unfolding run_files_eq
  by (rule subseq_order.trans[OF subseq_dir_step subseq_after_files])

lemma find_filter_same:
  "\<forall>e. P e \<longrightarrow> Q e \<Longrightarrow> find P (filter Q xs) = find P xs"
  by (induction xs) auto

lemma lookup_filter_eq:
  assumes "filter Q g = filter Q f" and "\<forall>e. e_path e = p \<longrightarrow> Q e"
  shows "lookup g p = lookup f p"
proof -
  have "lookup g p = find (\<lambda>e. e_path e = p) (filter Q g)"
    unfolding lookup_def using assms(2) by (simp add: find_filter_same)
  also have "\<dots> = find (\<lambda>e. e_path e = p) (filter Q f)" by (simp add: assms(1))
  also have "\<dots> = lookup f p"
    unfolding lookup_def using assms(2) by (simp add: find_filter_same)
  finally show ?thesis .
qed

lemma filter_run_files:
  "filter (\<lambda>e. \<not> is_target (e_path e)) (run_files f) = filter (\<lambda>e. \<not> is_target (e_path e)) f"
  unfolding run_files_eq
  by (simp add: filter_dir_step filter_after_files is_target_def)

lemma lookup_dir_step_other: "\<not> inside d p \<Longrightarrow> lookup (dir_step d f) p = lookup f p"
  by (rule lookup_filter_eq[where Q = "\<lambda>e. \<not> inside d (e_path e)"])
     (simp_all add: filter_dir_step)

lemma file_step_absent: "\<not> os_path_exists f p \<Longrightarrow> file_step p f = f"
  by (simp add: file_step_def)

lemma lookup_after_files_hidden:
  "\<not> os_path_exists f p \<Longrightarrow> lookup (after_files ps f) p = lookup f p"
proof (induction ps arbitrary: f)
  case Nil
  show ?case by (simp add: after_files_def)
next
  case (Cons q ps)
  have l: "lookup (file_step q f) p = lookup f p"
    using Cons.prems by (cases "q = p") (simp_all add: file_step_absent lookup_file_step)
  with Cons.prems have "\<not> os_path_exists (file_step q f) p"
    by (simp add: os_path_exists_lookup[OF l])
  then have "lookup (after_files ps (file_step q f)) p = lookup (file_step q f) p"
    by (rule Cons.IH)
  with l show ?case by (simp add: after_files_def)
qed

lemma lookup_after_files_removed:
  "distinct ps \<Longrightarrow> p \<in> set ps \<Longrightarrow> os_path_exists f p \<Longrightarrow> remove_error f p = None \<Longrightarrow>
   lookup (after_files ps f) p = None"
proof (induction ps arbitrary: f)
  case Nil
  then show ?case by simp
next
  case (Cons q ps)
  show ?case
  proof (cases "q = p")
    case True
    with Cons.prems have "lookup (file_step q f) p = None" and "p \<notin> set ps"
      by (simp_all add: file_step_def lookup_unlink)
    then have "lookup (after_files ps (file_step q f)) p = None"
      by (simp add: lookup_after_files_other)
    then show ?thesis by (simp add: after_files_def)
  next
    case False
    with Cons.prems have ps: "distinct ps" "p \<in> set ps" by auto
    from False have l: "lookup (file_step q f) p = lookup f p"
      by (simp add: lookup_file_step)
    have "os_path_exists (file_step q f) p" and "remove_error (file_step q f) p = None"
      using Cons.prems(3,4) by (simp_all add: os_path_exists_lookup[OF l] remove_error_lookup[OF l])
    with ps have "lookup (after_files ps (file_step q f)) p = None"
      by (rule Cons.IH)
    then show ?thesis by (simp add: after_files_def)
  qed
qed

lemma lookup_run_files_hidden:
  assumes "p \<in> set test_files" and "\<not> os_path_exists f p"
  shows "lookup (run_files f) p = lookup f p"
  using assms test_files_outside
  by (simp add: run_files_eq lookup_dir_step_other lookup_after_files_hidden)

lemma lookup_run_files_removed:
  assumes "p \<in> set test_files" and "os_path_exists f p" and "remove_error f p = None"
  shows "lookup (run_files f) p = None"
  using assms test_files_outside
  by (simp add: run_files_eq lookup_dir_step_other lookup_after_files_removed distinct_test_files)

lemma rmtree_walk_done:
  "fst (rmtree_walk d f) = None \<Longrightarrow> snd (rmtree_walk d f) = filter (\<lambda>e. \<not> inside d (e_path e)) f"
  by (induction f) (auto split: option.splits prod.splits)


lemma rmtree_error_walk:
  assumes "os_path_exists f d" and "rmtree_error f d = None"
  shows "fst (rmtree_walk d f) = None" and "dir_step d f = snd (rmtree_walk d f)"
  using assms
  by (auto simp add: dir_step_def rmtree_error_def shutil_rmtree_def os_path_exists_def
      split: option.splits kind.splits prod.splits)

lemma dir_step_done:
  assumes "os_path_exists f d" and "rmtree_error f d = None"
  shows "dir_step d f = filter (\<lambda>e. \<not> inside d (e_path e)) f"
  using rmtree_error_walk[OF assms] by (simp add: rmtree_walk_done)



lemma file_outcome_absent:
  "\<not> os_path_exists f p \<Longrightarrow> file_outcome f p = ''File not found: '' @ p"
  by (simp add: file_outcome_def)




lemma zion_mixed_survivor:
  "os_path_exists (run_files zion_mixed) ''/data/projects/zion/test_simple.zig''"
  by (simp add: run_files_eq dir_step_def after_files_def file_step_def remove_error_def
      os_remove_def os_path_exists_def lookup_def unlink_def shutil_rmtree_def inside_def
      test_files_def test_project_dir_def zion_mixed_def)

lemma zion_deletable_loop:
  "dir_check_files zion_deletable =
     [Entry ''/data/projects/zion/build.zig'' File None None,
      Entry ''/data/projects/zion/test-project/build.zig'' File None None,
      Entry ''/data/projects/zion/test-project'' Dir None None,
      Entry ''/data/projects/zion'' Dir None None,
      Entry ''/data/projects'' Dir None None,
      Entry ''/data'' Dir None None]"
  by (simp add: dir_check_files_eq after_files_def file_step_def remove_error_def
      os_remove_def os_path_exists_def lookup_def unlink_def test_files_def zion_deletable_def)

lemma zion_deletable_ok:
  "(\<forall>p\<in>set test_files. os_path_exists zion_deletable p \<longrightarrow> remove_error zion_deletable p = None)
   \<and> (os_path_exists zion_deletable test_project_dir \<longrightarrow> rmtree_error zion_deletable test_project_dir = None)"
  by (simp add: test_files_def test_project_dir_def zion_deletable_def os_path_exists_def
      lookup_def remove_error_def os_remove_def rmtree_error_def shutil_rmtree_def inside_def)

section \<open>The lines of the output\<close>

lemma formats_removed:
  "q \<in> set test_files \<Longrightarrow>
   message_formats (''Removed '' @ q) = [True, False, False, False, False, False]"
  by (auto simp add: message_formats_def test_files_def test_project_dir_def)

lemma formats_not_found:
  "q \<in> set test_files \<Longrightarrow>
   message_formats (''File not found: '' @ q) = [False, True, False, False, False, False]"
  by (auto simp add: message_formats_def test_files_def test_project_dir_def)

lemma formats_error:
  "q \<in> set test_files \<Longrightarrow>
   message_formats (''Error removing '' @ q @ '': '' @ str_exn x)
     = [False, False, True, False, False, False]"
  by (auto simp add: message_formats_def test_files_def test_project_dir_def)

lemma formats_removed_dir:
  "message_formats (''Removed directory '' @ test_project_dir)
     = [False, False, False, True, False, False]"
  by (auto simp add: message_formats_def test_files_def test_project_dir_def)

lemma formats_error_dir:
  "message_formats (''Error removing directory '' @ test_project_dir @ '': '' @ str_exn x)
     = [False, False, False, False, True, False]"
  by (auto simp add: message_formats_def test_files_def test_project_dir_def)

lemma formats_complete:
  "message_formats ''Cleanup complete'' = [False, False, False, False, False, True]"
  by (auto simp add: message_formats_def test_files_def test_project_dir_def)

lemma file_outcome_cases:
  "file_outcome f q = ''Removed '' @ q \<or> file_outcome f q = ''File not found: '' @ q
   \<or> (\<exists>x. file_outcome f q = ''Error removing '' @ q @ '': '' @ str_exn x)"
  by (cases "os_path_exists f q"; cases "remove_error f q") (auto simp add: file_outcome_def)

lemma formats_file_outcome:
  assumes q: "q \<in> set test_files"
  shows "count_list (message_formats (file_outcome f q)) True = 1"
proof -
  from file_outcome_cases[of f q]
  consider "file_outcome f q = ''Removed '' @ q" | "file_outcome f q = ''File not found: '' @ q"
    | x where "file_outcome f q = ''Error removing '' @ q @ '': '' @ str_exn x"
    by blast
  then show ?thesis
  proof cases
    case 1
    show ?thesis unfolding 1 formats_removed[OF q] by simp
  next
    case 2
    show ?thesis unfolding 2 formats_not_found[OF q] by simp
  next
    case 3
    show ?thesis unfolding 3 formats_error[OF q] by simp
  qed
qed

lemma dir_outcome_cases:
  "l \<in> set (dir_outcome f d) \<Longrightarrow>
   l = ''Removed directory '' @ d \<or> (\<exists>x. l = ''Error removing directory '' @ d @ '': '' @ str_exn x)"
  by (cases "os_path_exists f d"; cases "rmtree_error f d") (auto simp add: dir_outcome_def)

lemma formats_dir_outcome:
  assumes "l \<in> set (dir_outcome f test_project_dir)"
  shows "count_list (message_formats l) True = 1"
proof -
  from dir_outcome_cases[OF assms]
  consider "l = ''Removed directory '' @ test_project_dir"
    | x where "l = ''Error removing directory '' @ test_project_dir @ '': '' @ str_exn x"
    by blast
  then show ?thesis
  proof cases
    case 1
    show ?thesis unfolding 1 formats_removed_dir by simp
  next
    case 2
    show ?thesis unfolding 2 formats_error_dir by simp
  qed
qed

lemma outcome_of_file_outcome: "outcome_of p (file_outcome f p)"
  using file_outcome_cases[of f p] by (auto simp add: outcome_of_def)

lemma test_files_long: "\<forall>p\<in>set test_files. 26 < length p"
  by (simp add: test_files_def)

lemma key_distinct: "distinct (map (\<lambda>p. (p ! 21, p ! 26)) test_files)"
  by (simp add: test_files_def)

lemma test_files_key:
  "p \<in> set test_files \<Longrightarrow> q \<in> set test_files \<Longrightarrow> p ! 21 = q ! 21 \<Longrightarrow> p ! 26 = q ! 26 \<Longrightarrow> p = q"
  using key_distinct unfolding distinct_map by (auto dest: inj_onD)

lemma test_files_apart:
  assumes p: "p \<in> set test_files" and q: "q \<in> set test_files" and e: "p @ s = q @ t"
  shows "p = q"
proof -
  from p q test_files_long have l: "26 < length p" "26 < length q" by auto
  have "(p @ s) ! 21 = p ! 21" "(p @ s) ! 26 = p ! 26"
    using l by (simp_all add: nth_append)
  moreover have "(q @ t) ! 21 = q ! 21" "(q @ t) ! 26 = q ! 26"
    using l by (simp_all add: nth_append)
  ultimately have "p ! 21 = q ! 21" "p ! 26 = q ! 26" using e by simp_all
  with p q show ?thesis by (rule test_files_key)
qed

lemma test_files_hd: "\<forall>p\<in>set test_files. hd p = CHR ''/'' \<and> p \<noteq> []"
  by (simp add: test_files_def)

lemma test_files_slash:
  assumes "p \<in> set test_files"
  obtains t where "p = CHR ''/'' # t"
proof -
  from assms test_files_hd have "hd p = CHR ''/''" and "p \<noteq> []" by auto
  then have "p = CHR ''/'' # tl p" by (metis list.collapse)
  then show thesis by (rule that)
qed

lemma outcome_of_other:
  assumes p: "p \<in> set test_files" and q: "q \<in> set test_files" and ne: "p \<noteq> q"
  shows "\<not> outcome_of p (file_outcome f q)"
proof
  assume o: "outcome_of p (file_outcome f q)"
  from file_outcome_cases[of f q]
  consider "file_outcome f q = ''Removed '' @ q" | "file_outcome f q = ''File not found: '' @ q"
    | x where "file_outcome f q = ''Error removing '' @ q @ '': '' @ str_exn x"
    by blast
  then have "\<exists>s t. p @ s = q @ t"
  proof cases
    case 1
    from o[unfolded 1 outcome_of_def] have "q = p" by simp
    then show ?thesis by simp
  next
    case 2
    from o[unfolded 2 outcome_of_def] have "q = p" by simp
    then show ?thesis by simp
  next
    case 3
    from o[unfolded 3 outcome_of_def]
    have "\<exists>y. q @ '': '' @ str_exn x = p @ '': '' @ str_exn y" by simp
    then show ?thesis by metis
  qed
  then obtain s t where "p @ s = q @ t" by blast
  with p q have "p = q" by (rule test_files_apart)
  with ne show False by simp
qed

lemma outcome_of_dir:
  assumes p: "p \<in> set test_files" and l: "l \<in> set (dir_outcome f d)"
  shows "\<not> outcome_of p l"
proof
  assume o: "outcome_of p l"
  from p obtain t where t: "p = CHR ''/'' # t" by (rule test_files_slash)
  from dir_outcome_cases[OF l]
  consider "l = ''Removed directory '' @ d"
    | x where "l = ''Error removing directory '' @ d @ '': '' @ str_exn x"
    by blast
  then show False
  proof cases
    case 1
    from o[unfolded 1 outcome_of_def t] show False by simp
  next
    case 2
    from o[unfolded 2 outcome_of_def t] show False by simp
  qed
qed

lemma outcome_of_complete: "\<not> outcome_of p ''Cleanup complete''"
  by (auto simp add: outcome_of_def)

lemma filter_one:
  "distinct qs \<Longrightarrow> p \<in> set qs \<Longrightarrow> A (g p) \<Longrightarrow> \<forall>q\<in>set qs. q \<noteq> p \<longrightarrow> \<not> A (g q) \<Longrightarrow>
   length (filter A (map g qs)) = 1"
proof (induction qs)
  case Nil
  then show ?case by simp
next
  case (Cons q qs)
  show ?case
  proof (cases "q = p")
    case True
    with Cons.prems have "\<forall>r\<in>set qs. \<not> A (g r)" by auto
    then have "filter A (map g qs) = []" by (simp add: filter_empty_conv)
    with True Cons.prems(3) show ?thesis by simp
  next
    case False
    with Cons.prems have "length (filter A (map g qs)) = 1"
      by (intro Cons.IH) auto
    moreover from False Cons.prems(4) have "\<not> A (g q)" by simp
    ultimately show ?thesis by simp
  qed
qed

lemma one_outcome_line:
  assumes p: "p \<in> set test_files"
  shows "length (filter (outcome_of p) (run_out f)) = 1"
proof -
  have "\<forall>q\<in>set test_files. q \<noteq> p \<longrightarrow> \<not> outcome_of p (file_outcome f q)"
    using p by (simp add: outcome_of_other)
  with distinct_test_files p outcome_of_file_outcome
  have "length (filter (outcome_of p) (map (file_outcome f) test_files)) = 1"
    by (rule filter_one)
  moreover have "filter (outcome_of p) (dir_outcome f test_project_dir) = []"
    using p by (simp add: filter_empty_conv outcome_of_dir)
  ultimately show ?thesis
    by (simp add: run_out_eq outcome_of_complete)
qed

lemma remove_file_failure:
  assumes "os_path_exists (files w) p" and "fst (os_remove p w) = Some x"
  shows "remove_file p w
           = (None, w\<lparr>stdout := stdout w @ [''Error removing '' @ p @ '': '' @ str_exn x]\<rparr>)"
proof -
  from assms(2) have "os_remove p w = (Some x, w)"
    by (auto simp add: os_remove_def split: option.splits kind.splits)
  with assms(1) show ?thesis
    by (simp add: remove_file_def try_except_def seq_def print_def)
qed

lemma remove_dir_failure:
  assumes "os_path_exists (files w) d" and "fst (shutil_rmtree d w) = Some y"
  shows "fst (remove_dir d w) = None
         \<and> stdout (snd (remove_dir d w))
             = stdout w @ [''Error removing directory '' @ d @ '': '' @ str_exn y]"
proof -
  from assms(2) have "rmtree_error (files w) d = Some y"
    by (simp add: shutil_rmtree_eq[of d w])
  with assms(1) show ?thesis
    by (simp add: remove_dir_eq dir_outcome_def)
qed

lemma zion_mixed_failures:
  "os_path_exists zion_mixed ''/data/projects/zion/test_simple.zig''
   \<and> fst (os_remove ''/data/projects/zion/test_simple.zig'' \<lparr>files = zion_mixed, stdout = []\<rparr>)
       = Some (OSError EACCES ''/data/projects/zion/test_simple.zig'')
   \<and> os_path_exists zion_mixed ''/data/projects/zion/test-project''
   \<and> fst (shutil_rmtree ''/data/projects/zion/test-project'' \<lparr>files = zion_mixed, stdout = []\<rparr>)
       = Some (OSError EBUSY ''/data/projects/zion/test-project/src/main.zig'')"
  by (simp add: os_path_exists_def lookup_def os_remove_def shutil_rmtree_def inside_def
      zion_mixed_def)

section \<open>The claims\<close>

text \<open>
  C1. The loop never raises. The first five lines of the output are the outcome lines of
  the five file targets, each decided by the filesystem the run starts in:
  \<^verbatim>\<open>File not found: P\<close> when \<open>P\<close> does not exist, \<^verbatim>\<open>Removed P\<close> when it exists and
  \<^verbatim>\<open>os.remove\<close> succeeds, \<^verbatim>\<open>Error removing P: <error>\<close> when \<^verbatim>\<open>os.remove\<close> raises.
  For each target exactly one line of the whole output is an outcome line of it.
\<close>

theorem file_outcomes:
  "fst (for_each test_files remove_file w) = None
   \<and> take (length test_files) (run_out f) = map (file_outcome f) test_files
   \<and> (\<forall>p\<in>set test_files. length (filter (outcome_of p) (run_out f)) = 1)"
proof (intro conjI ballI)
  show "fst (for_each test_files remove_file w) = None"
    by (simp add: for_each_remove_file[OF distinct_test_files])
  show "take (length test_files) (run_out f) = map (file_outcome f) test_files"
    by (simp add: run_out_eq)
  fix p assume "p \<in> set test_files"
  then show "length (filter (outcome_of p) (run_out f)) = 1"
    by (rule one_outcome_line)
qed

theorem file_outcomes_witness:
  "''/data/projects/zion/test_build.sh'' \<in> set test_files
   \<and> length (filter (outcome_of ''/data/projects/zion/test_build.sh'') (run_out zion_mixed)) = 1"
proof -
  have m: "''/data/projects/zion/test_build.sh'' \<in> set test_files"
    by (simp add: test_files_def)
  from file_outcomes[of "\<lparr>files = zion_mixed, stdout = []\<rparr>" zion_mixed]
  have "\<forall>p\<in>set test_files. length (filter (outcome_of p) (run_out zion_mixed)) = 1"
    by simp
  from bspec[OF this m] m show ?thesis by simp
qed

text \<open>
  C2. A failing \<^verbatim>\<open>os.remove\<close> or \<^verbatim>\<open>shutil.rmtree\<close> is caught where it happens: the
  statement around it ends normally, having printed the error line. No iteration of
  the loop and no directory clean-up raises, in any state and for any path; the run
  raises nothing and the exit status is 0.
\<close>

theorem failures_suppressed:
  "(os_path_exists (files w) p \<and> fst (os_remove p w) = Some x \<longrightarrow>
      remove_file p w
        = (None, w\<lparr>stdout := stdout w @ [''Error removing '' @ p @ '': '' @ str_exn x]\<rparr>))
   \<and> (os_path_exists (files w) d \<and> fst (shutil_rmtree d w) = Some y \<longrightarrow>
        fst (remove_dir d w) = None
        \<and> stdout (snd (remove_dir d w))
            = stdout w @ [''Error removing directory '' @ d @ '': '' @ str_exn y])
   \<and> fst (remove_file p w) = None
   \<and> fst (remove_dir d w) = None
   \<and> fst (run f) = None
   \<and> exit_status f = 0"
proof (intro conjI impI)
  assume "os_path_exists (files w) p \<and> fst (os_remove p w) = Some x"
  then show "remove_file p w
        = (None, w\<lparr>stdout := stdout w @ [''Error removing '' @ p @ '': '' @ str_exn x]\<rparr>)"
    by (intro remove_file_failure) simp_all
next
  assume a: "os_path_exists (files w) d \<and> fst (shutil_rmtree d w) = Some y"
  then have b: "fst (remove_dir d w) = None
        \<and> stdout (snd (remove_dir d w))
            = stdout w @ [''Error removing directory '' @ d @ '': '' @ str_exn y]"
    by (intro remove_dir_failure) simp_all
  from b show "fst (remove_dir d w) = None" ..
  from b show "stdout (snd (remove_dir d w))
            = stdout w @ [''Error removing directory '' @ d @ '': '' @ str_exn y]" ..
next
  show "fst (remove_file p w) = None" by (simp add: remove_file_eq)
  show "fst (remove_dir d w) = None" by (simp add: remove_dir_eq)
  show "fst (run f) = None" by (simp add: run_eq)
  show "exit_status f = 0" by (simp add: exit_status_def run_eq)
qed

theorem failures_suppressed_witness:
  "os_path_exists zion_mixed ''/data/projects/zion/test_simple.zig''
   \<and> fst (os_remove ''/data/projects/zion/test_simple.zig'' \<lparr>files = zion_mixed, stdout = []\<rparr>)
       = Some (OSError EACCES ''/data/projects/zion/test_simple.zig'')
   \<and> remove_file ''/data/projects/zion/test_simple.zig'' \<lparr>files = zion_mixed, stdout = []\<rparr>
       = (None, \<lparr>files = zion_mixed,
                 stdout = [''Error removing /data/projects/zion/test_simple.zig: ''
                   @ str_exn (OSError EACCES ''/data/projects/zion/test_simple.zig'')]\<rparr>)
   \<and> os_path_exists zion_mixed ''/data/projects/zion/test-project''
   \<and> fst (shutil_rmtree ''/data/projects/zion/test-project'' \<lparr>files = zion_mixed, stdout = []\<rparr>)
       = Some (OSError EBUSY ''/data/projects/zion/test-project/src/main.zig'')
   \<and> stdout (snd (remove_dir ''/data/projects/zion/test-project'' \<lparr>files = zion_mixed, stdout = []\<rparr>))
       = [''Error removing directory /data/projects/zion/test-project: ''
            @ str_exn (OSError EBUSY ''/data/projects/zion/test-project/src/main.zig'')]
   \<and> exit_status zion_mixed = 0"
  using zion_mixed_failures
    failures_suppressed[of "\<lparr>files = zion_mixed, stdout = []\<rparr>"
      "''/data/projects/zion/test_simple.zig''"
      "OSError EACCES ''/data/projects/zion/test_simple.zig''"
      "''/data/projects/zion/test-project''"
      "OSError EBUSY ''/data/projects/zion/test-project/src/main.zig''" zion_mixed]
  by simp

text \<open>
  C3. The directory target: when \<^verbatim>\<open>/data/projects/zion/test-project\<close> does not exist the
  run prints no line for it (after the five file lines comes the completion line at
  once) and leaves the filesystem as the loop left it. When it exists, the filesystem
  the run leaves is the one \<^verbatim>\<open>shutil.rmtree\<close> leaves when called on the filesystem the
  loop left; the run prints \<^verbatim>\<open>Removed directory D\<close> if that call succeeds, and then no
  entry of the subtree is left, and \<^verbatim>\<open>Error removing directory D: <error>\<close> if it fails,
  and goes on to the completion line in both cases.
\<close>

theorem directory_outcome:
  "drop (length test_files) (run_out f) =
     (if os_path_exists f test_project_dir
      then (case rmtree_error f test_project_dir of
              None \<Rightarrow> [''Removed directory '' @ test_project_dir, ''Cleanup complete'']
            | Some x \<Rightarrow> [''Error removing directory '' @ test_project_dir @ '': '' @ str_exn x,
                         ''Cleanup complete''])
      else [''Cleanup complete''])
   \<and> (\<not> os_path_exists f test_project_dir \<longrightarrow> run_files f = dir_check_files f)
   \<and> (os_path_exists f test_project_dir \<longrightarrow>
        run_files f
          = files (snd (shutil_rmtree test_project_dir \<lparr>files = dir_check_files f, stdout = out\<rparr>))
        \<and> fst (shutil_rmtree test_project_dir \<lparr>files = dir_check_files f, stdout = out\<rparr>)
            = rmtree_error f test_project_dir)
   \<and> (os_path_exists f test_project_dir \<and> rmtree_error f test_project_dir = None \<longrightarrow>
        run_files f = filter (\<lambda>e. \<not> inside test_project_dir (e_path e)) (dir_check_files f))"
proof (intro conjI impI)
  show "drop (length test_files) (run_out f) =
     (if os_path_exists f test_project_dir
      then (case rmtree_error f test_project_dir of
              None \<Rightarrow> [''Removed directory '' @ test_project_dir, ''Cleanup complete'']
            | Some x \<Rightarrow> [''Error removing directory '' @ test_project_dir @ '': '' @ str_exn x,
                         ''Cleanup complete''])
      else [''Cleanup complete''])"
    by (simp add: run_out_eq dir_outcome_def split: option.splits)
next
  assume "\<not> os_path_exists f test_project_dir"
  then have "\<not> os_path_exists (dir_check_files f) test_project_dir"
    by (simp add: dir_check_exists)
  then show "run_files f = dir_check_files f"
    by (simp add: run_files_eq dir_check_files_eq dir_step_def)
next
  assume "os_path_exists f test_project_dir"
  then have e: "os_path_exists (dir_check_files f) test_project_dir"
    by (simp add: dir_check_exists)
  have "files (snd (shutil_rmtree test_project_dir \<lparr>files = dir_check_files f, stdout = out\<rparr>))
          = dir_step test_project_dir (dir_check_files f)"
    using e shutil_rmtree_eq[of test_project_dir "\<lparr>files = dir_check_files f, stdout = out\<rparr>"]
    by (simp add: dir_step_def)
  then show "run_files f
          = files (snd (shutil_rmtree test_project_dir \<lparr>files = dir_check_files f, stdout = out\<rparr>))"
    by (simp add: run_files_eq dir_check_files_eq)
  show "fst (shutil_rmtree test_project_dir \<lparr>files = dir_check_files f, stdout = out\<rparr>)
            = rmtree_error f test_project_dir"
    using shutil_rmtree_eq[of test_project_dir "\<lparr>files = dir_check_files f, stdout = out\<rparr>"]
    by (simp add: dir_check_files_eq rmtree_error_after_files)
next
  assume a: "os_path_exists f test_project_dir \<and> rmtree_error f test_project_dir = None"
  then have "os_path_exists (dir_check_files f) test_project_dir"
    and "rmtree_error (dir_check_files f) test_project_dir = None"
    by (simp_all add: exists_after_files_dir dir_check_files_eq rmtree_error_after_files)
  then have "dir_step test_project_dir (dir_check_files f)
      = filter (\<lambda>e. \<not> inside test_project_dir (e_path e)) (dir_check_files f)"
    by (rule dir_step_done)
  then show "run_files f = filter (\<lambda>e. \<not> inside test_project_dir (e_path e)) (dir_check_files f)"
    by (simp add: run_files_eq dir_check_files_eq)
qed

theorem directory_outcome_witness:
  "\<not> os_path_exists [] test_project_dir
   \<and> drop (length test_files) (run_out []) = [''Cleanup complete'']
   \<and> run_files [] = dir_check_files []
   \<and> os_path_exists zion_deletable test_project_dir
   \<and> rmtree_error zion_deletable test_project_dir = None
   \<and> drop (length test_files) (run_out zion_deletable)
       = [''Removed directory /data/projects/zion/test-project'', ''Cleanup complete'']
   \<and> run_files zion_deletable
       = [Entry ''/data/projects/zion/build.zig'' File None None,
          Entry ''/data/projects/zion'' Dir None None,
          Entry ''/data/projects'' Dir None None,
          Entry ''/data'' Dir None None]
   \<and> os_path_exists zion_mixed test_project_dir
   \<and> rmtree_error zion_mixed test_project_dir
       = Some (OSError EBUSY ''/data/projects/zion/test-project/src/main.zig'')
   \<and> drop (length test_files) (run_out zion_mixed)
       = [''Error removing directory /data/projects/zion/test-project: ''
            @ str_exn (OSError EBUSY ''/data/projects/zion/test-project/src/main.zig''),
          ''Cleanup complete'']"
proof -
  have a: "\<not> os_path_exists [] test_project_dir"
    by (simp add: os_path_exists_def lookup_def)
  have b: "os_path_exists zion_deletable test_project_dir
      \<and> rmtree_error zion_deletable test_project_dir = None"
    using zion_deletable_ok
    by (simp add: os_path_exists_def lookup_def zion_deletable_def test_project_dir_def)
  have c: "os_path_exists zion_mixed test_project_dir
      \<and> rmtree_error zion_mixed test_project_dir
          = Some (OSError EBUSY ''/data/projects/zion/test-project/src/main.zig'')"
    using zion_mixed_failures by (simp add: rmtree_error_def test_project_dir_def)
  from a directory_outcome[of "[]"]
  have 1: "drop (length test_files) (run_out []) = [''Cleanup complete'']
      \<and> run_files [] = dir_check_files []"
    by simp
  from b directory_outcome[of zion_deletable]
  have 2: "drop (length test_files) (run_out zion_deletable)
        = [''Removed directory '' @ test_project_dir, ''Cleanup complete'']
      \<and> run_files zion_deletable
        = filter (\<lambda>e. \<not> inside test_project_dir (e_path e)) (dir_check_files zion_deletable)"
    by simp
  from c directory_outcome[of zion_mixed]
  have 3: "drop (length test_files) (run_out zion_mixed)
       = [''Error removing directory '' @ test_project_dir @ '': ''
            @ str_exn (OSError EBUSY ''/data/projects/zion/test-project/src/main.zig''),
          ''Cleanup complete'']"
    by simp
  from a b c 1 2 3 zion_deletable_loop show ?thesis
    by (simp add: test_project_dir_def inside_def)
qed

text \<open>
  C4. Whatever the filesystem, the run ends normally, the last line it prints is
  \<^verbatim>\<open>Cleanup complete\<close>, and that line is printed exactly once.
\<close>

theorem cleanup_complete_last:
  "fst (run f) = None \<and> last (run_out f) = ''Cleanup complete''
   \<and> count_list (run_out f) ''Cleanup complete'' = 1"
proof -
  have "''Cleanup complete'' \<notin> set (map (file_outcome f) test_files)"
    by (auto simp add: file_outcome_not_complete[symmetric])
  then have "count_list (map (file_outcome f) test_files) ''Cleanup complete'' = 0"
    by (rule count_list_0)
  moreover have "count_list (dir_outcome f test_project_dir) ''Cleanup complete'' = 0"
    by (rule count_list_0[OF dir_outcome_not_complete])
  ultimately show ?thesis
    by (simp add: run_eq run_out_eq)
qed

text \<open>
  C5. The output is the outcome lines of the five file targets in the order of the
  list, then the outcome line of the directory (if any), then the completion line.
\<close>

theorem output_order:
  "run_out f =
     [file_outcome f ''/data/projects/zion/compile_test.zig'',
      file_outcome f ''/data/projects/zion/test_search.zig'',
      file_outcome f ''/data/projects/zion/test_simple.zig'',
      file_outcome f ''/data/projects/zion/test_build.sh'',
      file_outcome f ''/data/projects/zion/cleanup.py'']
     @ dir_outcome f ''/data/projects/zion/test-project''
     @ [''Cleanup complete'']"
  by (simp add: run_out_eq test_files_def test_project_dir_def)

text \<open>
  C6, as stated: after the run no file target is left on disk without an error line.
  This fails for a target that is on disk but that \<^verbatim>\<open>os.path.exists\<close> does not see, such
  as a symbolic link whose target is missing: the run reports it as not found, prints
  no error line, and leaves it where it is.
\<close>

theorem survivor_counterexample:
  "''/data/projects/zion/test_build.sh'' \<in> set test_files
   \<and> on_disk (run_files zion_dangling) ''/data/projects/zion/test_build.sh''
   \<and> run_files zion_dangling = zion_dangling
   \<and> run_out zion_dangling
       = [''File not found: /data/projects/zion/compile_test.zig'',
          ''File not found: /data/projects/zion/test_search.zig'',
          ''File not found: /data/projects/zion/test_simple.zig'',
          ''File not found: /data/projects/zion/test_build.sh'',
          ''File not found: /data/projects/zion/cleanup.py'',
          ''Cleanup complete'']"
  by (simp add: run_out_eq run_files_eq dir_step_def after_files_def file_step_def
      os_path_exists_def on_disk_def lookup_def file_outcome_def dir_outcome_def
      test_files_def test_project_dir_def zion_dangling_def)

text \<open>
  C6, amended: after the run, each of the five file targets either is no longer on
  disk, or the run printed an error line for it, or it is on disk but
  \<^verbatim>\<open>os.path.exists\<close> does not see it (a symbolic link whose target is missing, a path
  whose \<^verbatim>\<open>os.stat\<close> is refused), and then the run printed \<^verbatim>\<open>File not found: P\<close> for
  it. In particular, a target that \<^verbatim>\<open>os.path.exists\<close> sees after the run has an error
  line.
\<close>

theorem no_silent_survivor:
  "\<forall>p\<in>set test_files.
     \<not> on_disk (run_files f) p
     \<or> (\<exists>x. ''Error removing '' @ p @ '': '' @ str_exn x \<in> set (run_out f))
     \<or> (\<not> os_path_exists (run_files f) p \<and> ''File not found: '' @ p \<in> set (run_out f))"
proof
  fix p assume p: "p \<in> set test_files"
  then have out: "file_outcome f p \<in> set (run_out f)"
    unfolding run_out_eq by simp
  show "\<not> on_disk (run_files f) p
     \<or> (\<exists>x. ''Error removing '' @ p @ '': '' @ str_exn x \<in> set (run_out f))
     \<or> (\<not> os_path_exists (run_files f) p \<and> ''File not found: '' @ p \<in> set (run_out f))"
  proof (cases "os_path_exists f p")
    case False
    then have "\<not> os_path_exists (run_files f) p"
      by (simp add: os_path_exists_lookup[OF lookup_run_files_hidden[OF p False]])
    moreover from False have "file_outcome f p = ''File not found: '' @ p"
      by (rule file_outcome_absent)
    with out have "''File not found: '' @ p \<in> set (run_out f)"
      by (rule subst[rotated])
    ultimately show ?thesis by blast
  next
    case True
    show ?thesis
    proof (cases "remove_error f p")
      case None
      with p True have "lookup (run_files f) p = None"
        by (intro lookup_run_files_removed)
      then show ?thesis by (simp add: on_disk_def)
    next
      case (Some x)
      with True have "file_outcome f p = ''Error removing '' @ p @ '': '' @ str_exn x"
        by (simp add: file_outcome_def)
      with out have "''Error removing '' @ p @ '': '' @ str_exn x \<in> set (run_out f)"
        by (rule subst[rotated])
      then show ?thesis by blast
    qed
  qed
qed

theorem no_silent_survivor_witness:
  "''/data/projects/zion/test_simple.zig'' \<in> set test_files
   \<and> on_disk (run_files zion_mixed) ''/data/projects/zion/test_simple.zig''
   \<and> os_path_exists (run_files zion_mixed) ''/data/projects/zion/test_simple.zig''
   \<and> (\<exists>x. ''Error removing '' @ ''/data/projects/zion/test_simple.zig'' @ '': '' @ str_exn x
          \<in> set (run_out zion_mixed))"
proof -
  have m: "''/data/projects/zion/test_simple.zig'' \<in> set test_files"
    by (simp add: test_files_def)
  from zion_mixed_survivor
  have d: "on_disk (run_files zion_mixed) ''/data/projects/zion/test_simple.zig''"
    by (simp add: os_path_exists_def on_disk_def split: option.splits)
  from no_silent_survivor[of zion_mixed] m
  have "\<not> on_disk (run_files zion_mixed) ''/data/projects/zion/test_simple.zig''
     \<or> (\<exists>x. ''Error removing '' @ ''/data/projects/zion/test_simple.zig'' @ '': '' @ str_exn x
            \<in> set (run_out zion_mixed))
     \<or> (\<not> os_path_exists (run_files zion_mixed) ''/data/projects/zion/test_simple.zig''
        \<and> ''File not found: '' @ ''/data/projects/zion/test_simple.zig'' \<in> set (run_out zion_mixed))"
    by (rule bspec)
  with zion_mixed_survivor d m show ?thesis by blast
qed




text \<open>
  C8. Every line of the output is an instance of exactly one of the six message
  formats.
\<close>

theorem six_formats:
  "\<forall>l\<in>set (run_out f). count_list (message_formats l) True = 1"
proof
  fix l assume "l \<in> set (run_out f)"
  then consider q where "q \<in> set test_files" "l = file_outcome f q"
    | "l \<in> set (dir_outcome f test_project_dir)"
    | "l = ''Cleanup complete''"
    unfolding run_out_eq by auto
  then show "count_list (message_formats l) True = 1"
  proof cases
    case 1
    then show ?thesis by (simp add: formats_file_outcome)
  next
    case 2
    then show ?thesis by (rule formats_dir_outcome)
  next
    case 3
    show ?thesis unfolding 3 formats_complete by simp
  qed
qed

theorem six_formats_witness:
  "''Cleanup complete'' \<in> set (run_out zion_mixed)
   \<and> count_list (message_formats ''Cleanup complete'') True = 1"
proof -
  have m: "''Cleanup complete'' \<in> set (run_out zion_mixed)"
    by (simp add: run_out_eq)
  from six_formats[of zion_mixed] m
  have "count_list (message_formats ''Cleanup complete'') True = 1"
    by (rule bspec)
  with m show ?thesis by simp
qed

text \<open>
  C9. The target list has five entries. The first five lines of the output are their
  outcome lines, one per entry and in order; then comes one directory line exactly when
  the directory exists at its check (which is exactly when it exists at the start);
  then the completion line. So the run prints seven lines when the directory exists at
  its check and six when it does not.
\<close>

theorem line_count:
  "length test_files = 5
   \<and> take 5 (run_out f) = map (file_outcome f) test_files
   \<and> drop 5 (run_out f) =
       (if os_path_exists (dir_check_files f) test_project_dir
        then [case rmtree_error (dir_check_files f) test_project_dir of
                None \<Rightarrow> ''Removed directory '' @ test_project_dir
              | Some x \<Rightarrow> ''Error removing directory '' @ test_project_dir @ '': '' @ str_exn x]
        else [])
       @ [''Cleanup complete'']
   \<and> length (run_out f) = (if os_path_exists (dir_check_files f) test_project_dir then 7 else 6)
   \<and> os_path_exists (dir_check_files f) test_project_dir = os_path_exists f test_project_dir"
proof (intro conjI)
  show n: "length test_files = 5" by (simp add: test_files_def)
  show "take 5 (run_out f) = map (file_outcome f) test_files"
    using n by (simp add: run_out_eq)
  show "drop 5 (run_out f) =
       (if os_path_exists (dir_check_files f) test_project_dir
        then [case rmtree_error (dir_check_files f) test_project_dir of
                None \<Rightarrow> ''Removed directory '' @ test_project_dir
              | Some x \<Rightarrow> ''Error removing directory '' @ test_project_dir @ '': '' @ str_exn x]
        else [])
       @ [''Cleanup complete'']"
    using n
    by (simp add: run_out_eq dir_outcome_def exists_after_files_dir dir_check_files_eq
        rmtree_error_after_files split: option.splits)
  show "length (run_out f) = (if os_path_exists (dir_check_files f) test_project_dir then 7 else 6)"
    using n by (simp add: dir_check_exists run_out_eq length_dir_outcome)
  show "os_path_exists (dir_check_files f) test_project_dir = os_path_exists f test_project_dir"
    by (rule dir_check_exists)
qed

theorem line_count_witness:
  "os_path_exists zion_mixed test_project_dir
   \<and> length (run_out zion_mixed) = 7
   \<and> \<not> os_path_exists zion_dangling test_project_dir
   \<and> length (run_out zion_dangling) = 6"
proof -
  have a: "os_path_exists zion_mixed test_project_dir"
    by (simp add: os_path_exists_def lookup_def zion_mixed_def test_project_dir_def)
  have b: "\<not> os_path_exists zion_dangling test_project_dir"
    by (simp add: os_path_exists_def lookup_def zion_dangling_def test_project_dir_def)
  from a b line_count[of zion_mixed] line_count[of zion_dangling] show ?thesis by simp
qed

text \<open>
  C10. The run leaves every entry outside the five file paths and the subtree of the
  directory as it was, creates nothing and reorders nothing: the listing after the run
  is a sublist of the one before, equal to it on the paths that are not targets.
\<close>

theorem frame_outside_targets:
  "filter (\<lambda>e. \<not> is_target (e_path e)) (run_files f) = filter (\<lambda>e. \<not> is_target (e_path e)) f
   \<and> subseq (run_files f) f
   \<and> (\<forall>p. \<not> is_target p \<longrightarrow> lookup (run_files f) p = lookup f p)"
proof (intro conjI allI impI)
  show "filter (\<lambda>e. \<not> is_target (e_path e)) (run_files f) = filter (\<lambda>e. \<not> is_target (e_path e)) f"
    by (rule filter_run_files)
  show "subseq (run_files f) f" by (rule subseq_run_files)
  fix p assume "\<not> is_target p"
  then show "lookup (run_files f) p = lookup f p"
    by (intro lookup_filter_eq[OF filter_run_files]) simp
qed

theorem frame_outside_targets_witness:
  "\<not> is_target ''/data/projects/zion/build.zig''
   \<and> lookup (run_files zion_mixed) ''/data/projects/zion/build.zig''
       = Some (Entry ''/data/projects/zion/build.zig'' File None None)"
proof -
  have t: "\<not> is_target ''/data/projects/zion/build.zig''"
    by (simp add: is_target_def inside_def test_files_def test_project_dir_def)
  have "lookup zion_mixed ''/data/projects/zion/build.zig''
       = Some (Entry ''/data/projects/zion/build.zig'' File None None)"
    by (simp add: lookup_def zion_mixed_def)
  with t frame_outside_targets[of zion_mixed] show ?thesis by simp
qed

end
